theory Spec2Isabelle
  imports Main
begin

section \<open>Python values, exceptions and the user interface\<close>

text \<open>
  The program is one Python script, \<^verbatim>\<open>app.py\<close>. Its three functions
  \<^verbatim>\<open>upload_document\<close>, \<^verbatim>\<open>process_document\<close> and \<^verbatim>\<open>generate_summary\<close> call the file
  system, Amazon Textract, Amazon Bedrock and a text splitter, catch every exception,
  report it with \<^verbatim>\<open>st.error\<close> and return \<^verbatim>\<open>None\<close> or \<^verbatim>\<open>[]\<close>.

  An exception is a value of \<open>py_exception\<close>; a computation that may raise returns
  \<open>py_exception + 'a\<close>, with \<open>Inl\<close> for the exception. One \<open>char\<close> stands for one
  character of a Python \<^verbatim>\<open>str\<close>, so \<open>length\<close> is Python's \<^verbatim>\<open>len\<close>.
\<close>

datatype py_exception =
    ClientError string
  | KeyError
  | IndexError
  | TypeError
  | AttributeError
  | OSError
  | OtherException string

text \<open>
  A decoded JSON document, as \<^verbatim>\<open>json.loads\<close> returns it. \<open>JObj\<close> holds the items of
  the Python \<^verbatim>\<open>dict\<close>; a key is looked up with \<open>map_of\<close>. A JSON number is never
  subscripted successfully and is never a \<^verbatim>\<open>str\<close>, whatever its value, so one
  constructor stands for \<^verbatim>\<open>int\<close> and \<^verbatim>\<open>float\<close>.
\<close>

datatype json =
    JNull
  | JBool bool
  | JNum int
  | JStr string
  | JArr "json list"
  | JObj "(string \<times> json) list"

text \<open>\<^verbatim>\<open>d.get(key, default)\<close>: only a \<^verbatim>\<open>dict\<close> has the method.\<close>

fun dict_get :: "json \<Rightarrow> string \<Rightarrow> json \<Rightarrow> py_exception + json" where
  "dict_get (JObj items) key dflt =
     (case map_of items key of None \<Rightarrow> Inr dflt | Some v \<Rightarrow> Inr v)"
| "dict_get _ key dflt = Inl AttributeError"

text \<open>
  \<^verbatim>\<open>v[0]\<close>: the first element of a list, the first character of a \<^verbatim>\<open>str\<close> (a
  \<^verbatim>\<open>str\<close> of length one), \<^verbatim>\<open>IndexError\<close> when either is empty. The keys of a decoded
  JSON object are strings, so \<^verbatim>\<open>0\<close> is never among them.
\<close>

fun subscript_0 :: "json \<Rightarrow> py_exception + json" where
  "subscript_0 (JArr []) = Inl IndexError"
| "subscript_0 (JArr (x # xs)) = Inr x"
| "subscript_0 (JStr []) = Inl IndexError"
| "subscript_0 (JStr (c # cs)) = Inr (JStr [c])"
| "subscript_0 (JObj items) = Inl KeyError"
| "subscript_0 _ = Inl TypeError"

text \<open>\<^verbatim>\<open>v[key]\<close> for a \<^verbatim>\<open>str\<close> key: a list and a \<^verbatim>\<open>str\<close> want an integer index.\<close>

fun subscript_key :: "json \<Rightarrow> string \<Rightarrow> py_exception + json" where
  "subscript_key (JObj items) key =
     (case map_of items key of None \<Rightarrow> Inl KeyError | Some v \<Rightarrow> Inr v)"
| "subscript_key _ key = Inl TypeError"

text \<open>\<^verbatim>\<open>sep.join(xs)\<close> on strings.\<close>

fun str_join :: "string \<Rightarrow> string list \<Rightarrow> string" where
  "str_join sep [] = []"
| "str_join sep [x] = x"
| "str_join sep (x # y # ys) = x @ sep @ str_join sep (y # ys)"

text \<open>\<^verbatim>\<open>sep.join(xs)\<close> on Python values: \<^verbatim>\<open>TypeError\<close> unless every item is a \<^verbatim>\<open>str\<close>.\<close>

fun as_strs :: "json list \<Rightarrow> string list option" where
  "as_strs [] = Some []"
| "as_strs (JStr s # vs) = (case as_strs vs of None \<Rightarrow> None | Some ss \<Rightarrow> Some (s # ss))"
| "as_strs (_ # vs) = None"

definition py_join :: "string \<Rightarrow> json list \<Rightarrow> py_exception + string" where
  "py_join sep vs = (case as_strs vs of None \<Rightarrow> Inl TypeError | Some ss \<Rightarrow> Inr (str_join sep ss))"

section \<open>The Bedrock request\<close>

record message =
  role :: string
  content :: string

record request_body =
  max_tokens :: nat
  messages :: "message list"
  anthropic_version :: string

text \<open>The body \<^verbatim>\<open>generate_summary\<close> serialises for one chunk.\<close>

definition chunk_body :: "string \<Rightarrow> request_body" where
  "chunk_body chunk =
     \<lparr> max_tokens = 1000,
       messages =
         [ \<lparr> role = ''user'',
             content = ''I have a medical document that I'd like summarized. Output should have short description with the Patient's Complaint, History and Observations.'' \<rparr>,
           \<lparr> role = ''assistant'',
             content = ''Sure, I can help with that. Please provide the text of the medical document.'' \<rparr>,
           \<lparr> role = ''user'', content = chunk \<rparr> ],
       anthropic_version = ''bedrock-2023-05-31'' \<rparr>"

text \<open>
  The Bedrock client is a parameter. \<open>bedrock n body model\<close> is what the \<open>n\<close>-th call
  (counted from 0) of one run gives for
  \<^verbatim>\<open>json.loads(bedrock.invoke_model(body=body, modelId=model).get("body").read())\<close>:
  \<open>Inr\<close> the decoded response body, or \<open>Inl\<close> the exception that the call, the read or
  the decoding raised. The call number is an argument because the service need not
  answer the same text the same way twice.
\<close>

type_synonym bedrock_client = "nat \<Rightarrow> request_body \<Rightarrow> string option \<Rightarrow> py_exception + json"

section \<open>What the user sees and what the program calls\<close>

text \<open>The \<^verbatim>\<open>st.error\<close> messages of the script, one constructor per call site.\<close>

datatype st_message =
    Error_uploading_file py_exception
  | Amazon_Textract_error string
  | Error_extracting_text py_exception
  | Error_extracting_text_from_PDF py_exception
  | Unsupported_file_format
  | Error_splitting_text py_exception
  | Failed_to_extract_text
  | Invalid_file_path_or_file_type
  | Amazon_Bedrock_error string
  | Error_invoking_the_Claude_model py_exception
  | Error_generating_summary py_exception

text \<open>
  Every function returns, beside its value, the list of what it did to the outside, in
  order: the messages it showed and the calls it made to its collaborators.
\<close>

datatype event =
    St_error st_message
  | Invoke_model nat request_body "string option"
  | Open_rb string
  | Detect_document_text string
  | Analyze_document string "string list"
  | Split_text nat "string list" nat string

section \<open>generate_summary\<close>

text \<open>
  Lines 166 to 168: \<^verbatim>\<open>output = response_body.get("content", "No summary generated")\<close>,
  then \<^verbatim>\<open>output[0]["text"]\<close>.
\<close>

definition first_text :: "json \<Rightarrow> py_exception + json" where
  "first_text response_body =
     (case dict_get response_body ''content'' (JStr ''No summary generated'') of
        Inl e \<Rightarrow> Inl e
      | Inr output \<Rightarrow>
          (case subscript_0 output of
             Inl e \<Rightarrow> Inl e
           | Inr part \<Rightarrow> subscript_key part ''text''))"

text \<open>The inner \<^verbatim>\<open>try\<close> block for one chunk: the call, then \<open>first_text\<close>.\<close>

definition summarize_chunk ::
  "bedrock_client \<Rightarrow> string option \<Rightarrow> nat \<Rightarrow> string \<Rightarrow> py_exception + json" where
  "summarize_chunk bedrock model n chunk =
     (case bedrock n (chunk_body chunk) model of
        Inl e \<Rightarrow> Inl e
      | Inr response_body \<Rightarrow> first_text response_body)"

text \<open>
  The \<^verbatim>\<open>for chunk in documents\<close> loop, with \<^verbatim>\<open>summaries\<close> and the event list as
  accumulators and \<open>n\<close> the number of calls made so far. A \<^verbatim>\<open>ClientError\<close> and any
  other exception both show a message and return \<^verbatim>\<open>None\<close> at once.
\<close>

fun summarize_loop ::
  "bedrock_client \<Rightarrow> string option \<Rightarrow> nat \<Rightarrow> string list \<Rightarrow> json list \<Rightarrow> event list
     \<Rightarrow> event list \<times> json list option" where
  "summarize_loop bedrock model n [] summaries evs = (evs, Some summaries)"
| "summarize_loop bedrock model n (chunk # rest) summaries evs =
     (let evs1 = evs @ [Invoke_model n (chunk_body chunk) model] in
      case summarize_chunk bedrock model n chunk of
        Inl (ClientError msg) \<Rightarrow> (evs1 @ [St_error (Amazon_Bedrock_error msg)], None)
      | Inl e \<Rightarrow> (evs1 @ [St_error (Error_invoking_the_Claude_model e)], None)
      | Inr summary \<Rightarrow> summarize_loop bedrock model (Suc n) rest (summaries @ [summary]) evs1)"

text \<open>
  The whole function: the loop, then \<^verbatim>\<open>" ".join(summaries)\<close> inside the outer
  \<^verbatim>\<open>try\<close>. \<open>model\<close> is \<^verbatim>\<open>os.environ.get("BEDROCK_MODEL")\<close>.
\<close>

definition generate_summary ::
  "bedrock_client \<Rightarrow> string option \<Rightarrow> string list \<Rightarrow> event list \<times> string option" where
  "generate_summary bedrock model documents =
     (case summarize_loop bedrock model 0 documents [] [] of
        (evs, None) \<Rightarrow> (evs, None)
      | (evs, Some summaries) \<Rightarrow>
          (case py_join '' '' summaries of
             Inl e \<Rightarrow> (evs @ [St_error (Error_generating_summary e)], None)
           | Inr s \<Rightarrow> (evs, Some s)))"

section \<open>Files\<close>

text \<open>
  The file system maps a path in canonical form to what is stored there: \<^verbatim>\<open>.\<close> is the
  working directory and \<^verbatim>\<open>./a/b\<close> a path below it, \<^verbatim>\<open>/\<close> is the root and \<^verbatim>\<open>/a/b\<close> a path
  from the root. The working directory and the root are directories. There are no
  symbolic links. File contents are byte strings, one \<open>char\<close> per byte.
\<close>

datatype node = Dir | File string

type_synonym filesystem = "string \<rightharpoonup> node"

text \<open>\<^verbatim>\<open>open(path, 'rb').read()\<close>: a missing path and a directory raise an \<^verbatim>\<open>OSError\<close>.\<close>

definition open_rb_read :: "filesystem \<Rightarrow> string \<Rightarrow> py_exception + string" where
  "open_rb_read fs path = (case fs path of Some (File data) \<Rightarrow> Inr data | _ \<Rightarrow> Inl OSError)"

text \<open>
  The checks and writes of \<^verbatim>\<open>upload_document\<close> resolve a path as the operating system
  does, component by component. \<open>path_components\<close> is \<^verbatim>\<open>path.split("/")\<close>.
\<close>

fun path_components :: "string \<Rightarrow> string list" where
  "path_components [] = [[]]"
| "path_components (c # cs) =
     (if c = CHR ''/'' then [] # path_components cs
      else (case path_components cs of [] \<Rightarrow> [[c]] | x # xs \<Rightarrow> (c # x) # xs))"

text \<open>
  A location is reached from the root (\<open>True\<close>) or from the working directory (\<open>False\<close>)
  through the components listed; \<open>path_key\<close> is its canonical path.
\<close>

type_synonym location = "bool \<times> string list"

definition path_key :: "location \<Rightarrow> string" where
  "path_key loc =
     (case loc of
        (True, comps) \<Rightarrow> ''/'' @ str_join ''/'' comps
      | (False, comps) \<Rightarrow> if comps = [] then ''.'' else ''./'' @ str_join ''/'' comps)"

definition is_directory :: "filesystem \<Rightarrow> location \<Rightarrow> bool" where
  "is_directory fs loc = (snd loc = [] \<or> fs (path_key loc) = Some Dir)"

text \<open>
  The location \<^verbatim>\<open>..\<close> leads to: the root is its own parent, and above the working
  directory the components are \<^verbatim>\<open>..\<close> themselves.
\<close>

definition parent_location :: "location \<Rightarrow> location" where
  "parent_location loc =
     (case loc of
        (True, comps) \<Rightarrow> (True, butlast comps)
      | (False, comps) \<Rightarrow>
          if comps = [] \<or> last comps = ''..'' then (False, comps @ [''..''])
          else (False, butlast comps))"

text \<open>
  One step per component: a component is looked up in a directory only; an empty
  component and \<^verbatim>\<open>.\<close> stay, \<^verbatim>\<open>..\<close> goes up, a name goes down. The last name need
  not exist. \<open>None\<close> is the failure of the system call (\<^verbatim>\<open>ENOENT\<close>, \<^verbatim>\<open>ENOTDIR\<close>).
\<close>

fun walk :: "filesystem \<Rightarrow> location \<Rightarrow> string list \<Rightarrow> location option" where
  "walk fs loc [] = Some loc"
| "walk fs loc (c # cs) =
     (if \<not> is_directory fs loc then None
      else if c = [] \<or> c = ''.'' then walk fs loc cs
      else if c = ''..'' then walk fs (parent_location loc) cs
      else walk fs (fst loc, snd loc @ [c]) cs)"

definition resolve :: "filesystem \<Rightarrow> string \<Rightarrow> location option" where
  "resolve fs path =
     (if path = [] then None else walk fs (take 1 path = ''/'', []) (path_components path))"

text \<open>\<^verbatim>\<open>os.path.exists\<close>: the path resolves and something is there.\<close>

definition os_path_exists :: "filesystem \<Rightarrow> string \<Rightarrow> bool" where
  "os_path_exists fs path =
     (case resolve fs path of
        None \<Rightarrow> False
      | Some loc \<Rightarrow> snd loc = [] \<or> fs (path_key loc) \<noteq> None)"

text \<open>
  \<^verbatim>\<open>os.makedirs(path)\<close> and \<^verbatim>\<open>open(path, "wb")\<close> followed by \<^verbatim>\<open>write(data)\<close>. Whether the
  operating system lets the process create or truncate what is at a canonical path
  (permissions) is the parameter \<open>writable\<close>. \<^verbatim>\<open>makedirs\<close> is called with
  \<^verbatim>\<open>./uploaded_files\<close> only, whose parent is the working directory, so it makes one
  directory; a directory cannot be opened for writing.
\<close>

definition os_makedirs :: "(string \<Rightarrow> bool) \<Rightarrow> filesystem \<Rightarrow> string \<Rightarrow> py_exception + filesystem" where
  "os_makedirs writable fs path =
     (case resolve fs path of
        None \<Rightarrow> Inl OSError
      | Some loc \<Rightarrow>
          if snd loc \<noteq> [] \<and> fs (path_key loc) = None \<and> writable (path_key loc)
          then Inr (fs(path_key loc \<mapsto> Dir)) else Inl OSError)"

definition open_wb_write ::
  "(string \<Rightarrow> bool) \<Rightarrow> filesystem \<Rightarrow> string \<Rightarrow> string \<Rightarrow> py_exception + filesystem" where
  "open_wb_write writable fs path data =
     (case resolve fs path of
        None \<Rightarrow> Inl OSError
      | Some loc \<Rightarrow>
          if snd loc \<noteq> [] \<and> fs (path_key loc) \<noteq> Some Dir \<and> writable (path_key loc)
          then Inr (fs(path_key loc \<mapsto> File data)) else Inl OSError)"

text \<open>\<^verbatim>\<open>os.path.join\<close> of two parts (\<^verbatim>\<open>posixpath\<close>).\<close>

definition os_path_join :: "string \<Rightarrow> string \<Rightarrow> string" where
  "os_path_join a b =
     (if take 1 b = ''/'' then b
      else if a = [] \<or> last a = CHR ''/'' then a @ b
      else a @ ''/'' @ b)"

text \<open>\<^verbatim>\<open>p.rfind(c)\<close> for a single character: the last index of \<open>c\<close>, or \<open>-1\<close>.\<close>

definition rfind :: "string \<Rightarrow> char \<Rightarrow> int" where
  "rfind p c = (case filter (\<lambda>i. p ! i = c) (rev [0..<length p]) of [] \<Rightarrow> - 1 | i # _ \<Rightarrow> int i)"

text \<open>
  \<^verbatim>\<open>os.path.splitext\<close>: the extension starts at the last dot of the last path
  component, unless only dots come before it in that component. The \<^verbatim>\<open>while\<close> loop of
  \<^verbatim>\<open>genericpath._splitext\<close> is \<open>splitext_loop\<close>.
\<close>

function splitext_loop :: "string \<Rightarrow> nat \<Rightarrow> nat \<Rightarrow> string \<times> string" where
  "splitext_loop p filenameIndex dotIndex =
     (if filenameIndex < dotIndex then
        (if p ! filenameIndex \<noteq> CHR ''.'' then (take dotIndex p, drop dotIndex p)
         else splitext_loop p (Suc filenameIndex) dotIndex)
      else (p, []))"
  by pat_completeness auto
termination
  by (relation "measure (\<lambda>(p, filenameIndex, dotIndex). dotIndex - filenameIndex)") auto

declare splitext_loop.simps [simp del]

definition os_path_splitext :: "string \<Rightarrow> string \<times> string" where
  "os_path_splitext p =
     (let sepIndex = rfind p (CHR ''/''); dotIndex = rfind p (CHR ''.'') in
      if dotIndex > sepIndex then splitext_loop p (nat (sepIndex + 1)) (nat dotIndex)
      else (p, []))"

section \<open>upload_document\<close>

text \<open>Streamlit's uploaded file: its name and the bytes of \<^verbatim>\<open>getbuffer()\<close>.\<close>

record uploaded_file =
  name :: string
  getbuffer :: string

text \<open>
  Lines 49 to 54: the path used when the first path exists. \<open>uuid4\<close> is
  \<^verbatim>\<open>str(uuid.uuid4())\<close>, the random identifier this call draws.
\<close>

definition renamed_path :: "string \<Rightarrow> string \<Rightarrow> string \<Rightarrow> string" where
  "renamed_path upload_folder uploaded_name uuid4 =
     (case os_path_splitext uploaded_name of
        (file_name, file_extension) \<Rightarrow>
          (let unique_id = take 8 uuid4 in
           os_path_join upload_folder (file_name @ ''_'' @ unique_id @ file_extension)))"

text \<open>
  \<^verbatim>\<open>upload_document\<close> returns the new file system, the messages shown and the returned
  path (\<^verbatim>\<open>None\<close> after an exception or for no file).
\<close>

definition upload_document ::
  "(string \<Rightarrow> bool) \<Rightarrow> filesystem \<Rightarrow> string \<Rightarrow> uploaded_file option
     \<Rightarrow> filesystem \<times> event list \<times> string option" where
  "upload_document writable fs uuid4 uploaded =
     (case uploaded of
        None \<Rightarrow> (fs, [], None)
      | Some f \<Rightarrow>
          (let upload_folder = ''./uploaded_files'' in
           case (if \<not> os_path_exists fs upload_folder
                 then os_makedirs writable fs upload_folder else Inr fs) of
             Inl e \<Rightarrow> (fs, [St_error (Error_uploading_file e)], None)
           | Inr fs1 \<Rightarrow>
               (let file_path0 = os_path_join upload_folder (name f);
                    file_path =
                      (if os_path_exists fs1 file_path0
                       then renamed_path upload_folder (name f) uuid4
                       else file_path0)
                in case open_wb_write writable fs1 file_path (getbuffer f) of
                     Inl e \<Rightarrow> (fs1, [St_error (Error_uploading_file e)], None)
                   | Inr fs2 \<Rightarrow> (fs2, [], Some file_path))))"

section \<open>Text extraction\<close>

text \<open>
  A block of a Textract response, with the two keys the program reads; a key may be
  absent (\<open>None\<close>), as \<^verbatim>\<open>Text\<close> is for a page or a table block. \<open>Blocks\<close> is the
  \<^verbatim>\<open>"Blocks"\<close> key of the response.
\<close>

record block =
  BlockType :: "string option"
  Text :: "string option"

record textract_response =
  Blocks :: "block list option"

text \<open>
  The Textract client is a parameter: what \<^verbatim>\<open>detect_document_text\<close> and
  \<^verbatim>\<open>analyze_document\<close> answer for the document bytes (and the feature types), or the
  exception they raise.
\<close>

record textract_client =
  detect_document_text :: "string \<Rightarrow> py_exception + textract_response"
  analyze_document :: "string \<Rightarrow> string list \<Rightarrow> py_exception + textract_response"

text \<open>\<^verbatim>\<open>response["Blocks"]\<close>.\<close>

definition response_blocks :: "textract_response \<Rightarrow> py_exception + block list" where
  "response_blocks response = (case Blocks response of None \<Rightarrow> Inl KeyError | Some bs \<Rightarrow> Inr bs)"

text \<open>Lines 78 to 82, the loop of \<^verbatim>\<open>extract_text_from_image\<close>, with \<^verbatim>\<open>text\<close> as accumulator.\<close>

fun image_lines :: "block list \<Rightarrow> string \<Rightarrow> py_exception + string" where
  "image_lines [] text = Inr text"
| "image_lines (item # items) text =
     (case BlockType item of
        None \<Rightarrow> Inl KeyError
      | Some t \<Rightarrow>
          if t = ''LINE'' then
            (case Text item of
               None \<Rightarrow> Inl KeyError
             | Some s \<Rightarrow> image_lines items (text @ s @ ''\<newline>''))
          else image_lines items text)"

text \<open>Lines 99 to 103, the loop of \<^verbatim>\<open>extract_text_from_pdf\<close>.\<close>

fun pdf_lines :: "block list \<Rightarrow> string \<Rightarrow> py_exception + string" where
  "pdf_lines [] text = Inr text"
| "pdf_lines (block # blocks) text =
     (case BlockType block of
        None \<Rightarrow> Inl KeyError
      | Some t \<Rightarrow>
          if t = ''LINE'' then
            (case Text block of
               None \<Rightarrow> Inl KeyError
             | Some s \<Rightarrow> pdf_lines blocks (text @ s @ ''\<newline>''))
          else pdf_lines blocks text)"

text \<open>
  The body of each \<^verbatim>\<open>try\<close>: the events, and the text or the exception that ends it.
\<close>

definition image_try ::
  "filesystem \<Rightarrow> textract_client \<Rightarrow> string \<Rightarrow> event list \<times> (py_exception + string)" where
  "image_try fs textract file_path =
     (case open_rb_read fs file_path of
        Inl e \<Rightarrow> ([Open_rb file_path], Inl e)
      | Inr data \<Rightarrow>
          ([Open_rb file_path, Detect_document_text data],
           case detect_document_text textract data of
             Inl e \<Rightarrow> Inl e
           | Inr response \<Rightarrow>
               (case response_blocks response of
                  Inl e \<Rightarrow> Inl e
                | Inr blocks \<Rightarrow> image_lines blocks [])))"

definition pdf_try ::
  "filesystem \<Rightarrow> textract_client \<Rightarrow> string \<Rightarrow> event list \<times> (py_exception + string)" where
  "pdf_try fs textract file_path =
     (case open_rb_read fs file_path of
        Inl e \<Rightarrow> ([Open_rb file_path], Inl e)
      | Inr data \<Rightarrow>
          ([Open_rb file_path, Analyze_document data [''TABLES'', ''FORMS'']],
           case analyze_document textract data [''TABLES'', ''FORMS''] of
             Inl e \<Rightarrow> Inl e
           | Inr response \<Rightarrow>
               (case response_blocks response of
                  Inl e \<Rightarrow> Inl e
                | Inr blocks \<Rightarrow> pdf_lines blocks [])))"

text \<open>The two functions with their \<^verbatim>\<open>except\<close> clauses.\<close>

definition extract_text_from_image ::
  "filesystem \<Rightarrow> textract_client \<Rightarrow> string \<Rightarrow> event list \<times> string option" where
  "extract_text_from_image fs textract file_path =
     (case image_try fs textract file_path of
        (evs, Inr text) \<Rightarrow> (evs, Some text)
      | (evs, Inl (ClientError msg)) \<Rightarrow> (evs @ [St_error (Amazon_Textract_error msg)], None)
      | (evs, Inl e) \<Rightarrow> (evs @ [St_error (Error_extracting_text e)], None))"

definition extract_text_from_pdf ::
  "filesystem \<Rightarrow> textract_client \<Rightarrow> string \<Rightarrow> event list \<times> string option" where
  "extract_text_from_pdf fs textract file_path =
     (case pdf_try fs textract file_path of
        (evs, Inr text) \<Rightarrow> (evs, Some text)
      | (evs, Inl (ClientError msg)) \<Rightarrow> (evs @ [St_error (Amazon_Textract_error msg)], None)
      | (evs, Inl e) \<Rightarrow> (evs @ [St_error (Error_extracting_text_from_PDF e)], None))"


section \<open>process_document\<close>

text \<open>Python's truth value of a \<^verbatim>\<open>str\<close> or \<^verbatim>\<open>None\<close>.\<close>

definition truthy :: "string option \<Rightarrow> bool" where
  "truthy v = (case v of None \<Rightarrow> False | Some s \<Rightarrow> s \<noteq> [])"

text \<open>
  The text splitter comes from a library outside the repository, so it is a parameter:
  \<open>split_text chunk_size separators chunk_overlap text\<close> gives the chunks or the exception
  raised.
\<close>

type_synonym splitter = "nat \<Rightarrow> string list \<Rightarrow> nat \<Rightarrow> string \<Rightarrow> py_exception + string list"

definition separators :: "string list" where
  "separators = [''\<newline>\<newline>'', ''\<newline>'', ''.'', ''!'', ''?'', '','', '' '', '''']"

definition process_document ::
  "filesystem \<Rightarrow> textract_client \<Rightarrow> splitter \<Rightarrow> string option \<Rightarrow> string option
     \<Rightarrow> event list \<times> string list" where
  "process_document fs textract split_text file_path file_type =
     (case (file_path, file_type) of
        (Some path, Some ftype) \<Rightarrow>
          if path \<noteq> [] \<and> ftype \<noteq> [] then
            (case (if ftype \<in> set [''jpg'', ''jpeg'', ''tiff'']
                   then Some (extract_text_from_image fs textract path)
                   else if ftype = ''pdf''
                   then Some (extract_text_from_pdf fs textract path)
                   else None) of
               None \<Rightarrow> ([St_error Unsupported_file_format], [])
             | Some (evs, extracted_text) \<Rightarrow>
                 (case (if truthy extracted_text then extracted_text else None) of
                    Some text \<Rightarrow>
                      (case split_text 4000 separators 0 text of
                         Inl e \<Rightarrow>
                           (evs @ [Split_text 4000 separators 0 text,
                                   St_error (Error_splitting_text e)], [])
                       | Inr texts \<Rightarrow> (evs @ [Split_text 4000 separators 0 text], texts))
                  | None \<Rightarrow> (evs @ [St_error Failed_to_extract_text], [])))
          else ([St_error Invalid_file_path_or_file_type], [])
      | _ \<Rightarrow> ([St_error Invalid_file_path_or_file_type], []))"

section \<open>The text splitter, as the specification describes it\<close>

text \<open>
  \<^verbatim>\<open>RecursiveCharacterTextSplitter\<close> is a class of the library \<^verbatim>\<open>langchain\<close>; the
  repository holds only the call that configures it (chunk size 4000, the separator
  list above, overlap 0). The definitions of this section follow section 4.1 of the
  specification instead. What the library does beyond that description (its defaults,
  such as whether it trims white space from a chunk) is not part of them.
\<close>

text \<open>
  Modelled from the spec: the output of the library's splitter, which is missing from
  the sources. The specification speaks of chunks and of "separator characters consumed
  between them"; a \<open>segment\<close> is either, so that a split can be read back.
\<close>

datatype segment = Chunk string | Consumed string

text \<open>Modelled from the spec: the characters of a segment (the library is missing).\<close>

fun segment_text :: "segment \<Rightarrow> string" where
  "segment_text (Chunk s) = s"
| "segment_text (Consumed s) = s"

text \<open>
  Modelled from the spec: the "ordered, finite sequence of substrings" the splitter
  returns (the library is missing), which is the chunks without the separators consumed.
\<close>

fun chunks_of :: "segment list \<Rightarrow> string list" where
  "chunks_of [] = []"
| "chunks_of (Chunk s # segs) = s # chunks_of segs"
| "chunks_of (Consumed s # segs) = chunks_of segs"

text \<open>
  Modelled from the spec: splitting a text on one separator (the library's own
  splitting is missing). The pieces are what lies between the occurrences of \<open>sep\<close>,
  found from left to right; \<open>piece\<close> collects the characters since the last occurrence.
\<close>

function split_at :: "string \<Rightarrow> string \<Rightarrow> string \<Rightarrow> string list" where
  "split_at sep piece rest =
     (if rest = [] then [piece]
      else if sep \<noteq> [] \<and> take (length sep) rest = sep
      then piece # split_at sep [] (drop (length sep) rest)
      else split_at sep (piece @ [hd rest]) (tl rest))"
  by pat_completeness auto
termination
  by (relation "measure (\<lambda>(sep, piece, rest). length rest)") auto

declare split_at.simps [simp del]

text \<open>
  Modelled from the spec: "the empty-string separator meaning split at any character"
  gives one piece per character; any other separator splits at its occurrences (the
  library is missing).
\<close>

definition split_on :: "string \<Rightarrow> string \<Rightarrow> string list" where
  "split_on sep text = (if sep = [] then map (\<lambda>c. [c]) text else split_at sep [] text)"

text \<open>
  Modelled from the spec: "Empty input text yields an empty sequence", so a run of
  merged pieces becomes a chunk unless it is empty (the library is missing).
\<close>

definition emit_chunk :: "string \<Rightarrow> segment list" where
  "emit_chunk run = (if run = [] then [] else [Chunk run])"

text \<open>
  Modelled from the spec: "adjacent pieces below the size threshold are merged back
  together (greedily, in original order) up to the maximum size before emitting a chunk
  boundary", and a piece that exceeds the maximum size is re-split by \<open>resplit\<close>, the
  splitter on the next separator (the library is missing). \<open>run\<close> is the run of pieces
  merged so far, joined by the separator; between two pieces that end up in different
  chunks the separator is consumed.
\<close>

fun merge_pieces ::
  "nat \<Rightarrow> string \<Rightarrow> (string \<Rightarrow> segment list) \<Rightarrow> string option \<Rightarrow> string list \<Rightarrow> segment list" where
  "merge_pieces max_size sep resplit run [] =
     (case run of None \<Rightarrow> [] | Some r \<Rightarrow> emit_chunk r)"
| "merge_pieces max_size sep resplit run (piece # pieces) =
     (if length piece \<le> max_size then
        (case run of
           None \<Rightarrow> merge_pieces max_size sep resplit (Some piece) pieces
         | Some r \<Rightarrow>
             if length r + length sep + length piece \<le> max_size
             then merge_pieces max_size sep resplit (Some (r @ sep @ piece)) pieces
             else emit_chunk r @ [Consumed sep]
                  @ merge_pieces max_size sep resplit (Some piece) pieces)
      else
        (case run of None \<Rightarrow> [] | Some r \<Rightarrow> emit_chunk r @ [Consumed sep])
        @ resplit piece
        @ (if pieces = [] then [] else [Consumed sep])
        @ merge_pieces max_size sep resplit None pieces)"

text \<open>
  Modelled from the spec: "the splitter attempts the first separator in priority
  order; if splitting on it yields pieces that individually still exceed the maximum
  size, it recursively re-splits only the oversized piece using the next-lower-priority
  separator, and so on"; with no separator left a piece is an indivisible unit and is
  emitted whole (the library is missing).
\<close>

fun split_segments :: "nat \<Rightarrow> string list \<Rightarrow> string \<Rightarrow> segment list" where
  "split_segments max_size [] text = emit_chunk text"
| "split_segments max_size (sep # seps) text =
     merge_pieces max_size sep (\<lambda>piece. split_segments max_size seps piece) None
       (split_on sep text)"

text \<open>
  Modelled from the spec: the splitter's \<^verbatim>\<open>split_text\<close> with overlap zero, the only
  overlap the specification describes (the library is missing).
\<close>

definition spec_split_text :: "nat \<Rightarrow> string list \<Rightarrow> string \<Rightarrow> string list" where
  "spec_split_text max_size seps text = chunks_of (split_segments max_size seps text)"

section \<open>Properties of generate_summary\<close>

text \<open>
  The loop either returns \<^verbatim>\<open>None\<close> or has appended one value per chunk, the value of
  the step for that chunk; it returns \<^verbatim>\<open>None\<close> as soon as one step raises.
\<close>

lemma summarize_loop_None_or_Some:
  "snd (summarize_loop b m n cs acc evs) = None \<or>
   (\<exists>vs. snd (summarize_loop b m n cs acc evs) = Some (acc @ vs) \<and> length vs = length cs \<and>
      (\<forall>i<length cs. summarize_chunk b m (n + i) (cs ! i) = Inr (vs ! i)))"
proof (induction cs arbitrary: n acc evs)
  case Nil
  then show ?case by simp
next
  case (Cons c cs)
  show ?case
  proof (cases "summarize_chunk b m n c")
    case (Inl e)
    then show ?thesis by (cases e) (simp_all add: Let_def)
  next
    case (Inr v)
    from Cons.IH [of "Suc n" "acc @ [v]" "evs @ [Invoke_model n (chunk_body c) m]"]
    show ?thesis
    proof
      assume "snd (summarize_loop b m (Suc n) cs (acc @ [v]) (evs @ [Invoke_model n (chunk_body c) m])) = None"
      with Inr show ?thesis by (simp add: Let_def)
    next
      assume "\<exists>vs. snd (summarize_loop b m (Suc n) cs (acc @ [v]) (evs @ [Invoke_model n (chunk_body c) m])) = Some ((acc @ [v]) @ vs) \<and>
         length vs = length cs \<and> (\<forall>i<length cs. summarize_chunk b m (Suc n + i) (cs ! i) = Inr (vs ! i))"
      then obtain vs where vs:
        "snd (summarize_loop b m (Suc n) cs (acc @ [v]) (evs @ [Invoke_model n (chunk_body c) m])) = Some ((acc @ [v]) @ vs)"
        "length vs = length cs"
        "\<forall>i<length cs. summarize_chunk b m (Suc n + i) (cs ! i) = Inr (vs ! i)"
        by blast
      have "\<forall>i<length (c # cs). summarize_chunk b m (n + i) ((c # cs) ! i) = Inr ((v # vs) ! i)"
      proof (intro allI impI)
        fix i assume "i < length (c # cs)"
        then show "summarize_chunk b m (n + i) ((c # cs) ! i) = Inr ((v # vs) ! i)"
          using Inr vs(3) by (cases i) auto
      qed
      with vs(1,2) Inr have "snd (summarize_loop b m n (c # cs) acc evs) = Some (acc @ (v # vs)) \<and>
          length (v # vs) = length (c # cs) \<and>
          (\<forall>i<length (c # cs). summarize_chunk b m (n + i) ((c # cs) ! i) = Inr ((v # vs) ! i))"
        by (simp add: Let_def)
      then show ?thesis by blast
    qed
  qed
qed

lemma summarize_loop_fail:
  "k < length cs \<Longrightarrow> summarize_chunk b m (n + k) (cs ! k) = Inl e \<Longrightarrow>
   snd (summarize_loop b m n cs acc evs) = None"
  using summarize_loop_None_or_Some [of b m n cs acc evs] by auto

lemma summarize_loop_ok:
  "length vs = length cs \<Longrightarrow>
   \<forall>i<length cs. summarize_chunk b m (n + i) (cs ! i) = Inr (vs ! i) \<Longrightarrow>
   snd (summarize_loop b m n cs acc evs) = Some (acc @ vs)"
proof (induction cs arbitrary: n acc evs vs)
  case Nil
  then show ?case by simp
next
  case (Cons c cs)
  then obtain v vs' where vs: "vs = v # vs'" by (cases vs) auto
  from Cons.prems(2) have h0: "summarize_chunk b m n c = Inr v" using vs by fastforce
  have "\<forall>i<length cs. summarize_chunk b m (Suc n + i) (cs ! i) = Inr (vs' ! i)"
  proof (intro allI impI)
    fix i assume "i < length cs"
    then have "Suc i < length (c # cs)" by simp
    from Cons.prems(2) [rule_format, OF this] show "summarize_chunk b m (Suc n + i) (cs ! i) = Inr (vs' ! i)"
      using vs by simp
  qed
  with Cons.IH [of vs' "Suc n" "acc @ [v]"] Cons.prems(1) vs h0
  show ?case by (simp add: Let_def)
qed

text \<open>
  The only response bodies from which a text is taken: an object whose \<^verbatim>\<open>content\<close> is a
  list that starts with an object holding the key \<^verbatim>\<open>text\<close>.
\<close>

lemma first_text_Inr:
  "first_text body = Inr v \<longleftrightarrow>
     (\<exists>items fields parts. body = JObj items \<and>
        map_of items ''content'' = Some (JArr (JObj fields # parts)) \<and>
        map_of fields ''text'' = Some v)"
proof
  assume h: "first_text body = Inr v"
  then obtain items where b: "body = JObj items"
    by (cases body) (simp_all add: first_text_def)
  show "\<exists>items fields parts. body = JObj items \<and>
        map_of items ''content'' = Some (JArr (JObj fields # parts)) \<and>
        map_of fields ''text'' = Some v"
  proof (cases "map_of items ''content''")
    case None
    with h b show ?thesis by (simp add: first_text_def)
  next
    case (Some outp)
    with h b obtain part where p: "subscript_0 outp = Inr part" "subscript_key part ''text'' = Inr v"
      by (auto simp: first_text_def split: sum.splits)
    from p(2) obtain fields where f: "part = JObj fields" "map_of fields ''text'' = Some v"
      by (cases part) (auto split: option.splits)
    from p(1) f(1) obtain parts where "outp = JArr (JObj fields # parts)"
      by (cases outp rule: subscript_0.cases) auto
    with Some b f show ?thesis by blast
  qed
next
  assume "\<exists>items fields parts. body = JObj items \<and>
        map_of items ''content'' = Some (JArr (JObj fields # parts)) \<and>
        map_of fields ''text'' = Some v"
  then show "first_text body = Inr v" by (auto simp: first_text_def)
qed


lemma as_strs_map_JStr: "as_strs (map JStr ss) = Some ss"
  by (induction ss) simp_all

lemma as_strs_Some: "as_strs vs = Some ss \<Longrightarrow> vs = map JStr ss"
proof (induction vs arbitrary: ss)
  case Nil
  then show ?case by simp
next
  case (Cons v vs)
  then show ?case by (cases v) (auto split: option.splits)
qed

lemma generate_summary_None:
  "snd (summarize_loop bedrock model 0 documents [] []) = None \<Longrightarrow>
   snd (generate_summary bedrock model documents) = None"
  by (cases "summarize_loop bedrock model 0 documents [] []") (simp add: generate_summary_def)

lemma generate_summary_Some:
  "snd (summarize_loop bedrock model 0 documents [] []) = Some (map JStr ss) \<Longrightarrow>
   snd (generate_summary bedrock model documents) = Some (str_join '' '' ss)"
  by (cases "summarize_loop bedrock model 0 documents [] []")
    (simp add: generate_summary_def py_join_def as_strs_map_JStr)

lemma generate_summary_SomeD:
  "snd (generate_summary bedrock model documents) = Some s \<Longrightarrow>
   \<exists>ss. snd (summarize_loop bedrock model 0 documents [] []) = Some (map JStr ss) \<and>
        s = str_join '' '' ss"
  by (cases "summarize_loop bedrock model 0 documents [] []")
    (auto simp: generate_summary_def py_join_def split: option.splits dest: as_strs_Some)

text \<open>
  A text that is not a string is appended like any other value; the join then raises
  \<^verbatim>\<open>TypeError\<close> in the outer \<^verbatim>\<open>try\<close>, and the result is \<^verbatim>\<open>None\<close> as well.
\<close>

lemma non_string_text_example:
  "generate_summary
     (\<lambda>n body model. Inr (JObj [(''content'', JArr [JObj [(''text'', JNull)]])]))
     None [''chunk'']
   = ([Invoke_model 0 (chunk_body ''chunk'') None, St_error (Error_generating_summary TypeError)],
      None)"
  by (simp add: generate_summary_def summarize_chunk_def first_text_def py_join_def)

text \<open>
  Claim C1. When the call for every chunk returns a response body whose \<^verbatim>\<open>content\<close> is a
  list that starts with a part holding a string under \<^verbatim>\<open>text\<close>, \<^verbatim>\<open>generate_summary\<close>
  returns these strings, in chunk order, joined by one space. For two chunks answered
  with \<^verbatim>\<open>S1\<close> and \<^verbatim>\<open>S2\<close> the result is \<^verbatim>\<open>S1 S2\<close> (the witness).
\<close>
theorem generate_summary_joins:
  assumes "length ss = length documents"
    and "\<forall>i<length documents. \<exists>items fields parts.
           bedrock i (chunk_body (documents ! i)) model = Inr (JObj items) \<and>
           map_of items ''content'' = Some (JArr (JObj fields # parts)) \<and>
           map_of fields ''text'' = Some (JStr (ss ! i))"
  shows "snd (generate_summary bedrock model documents) = Some (str_join '' '' ss)"
proof -
  have "\<forall>i<length documents.
          summarize_chunk bedrock model (0 + i) (documents ! i) = Inr (map JStr ss ! i)"
  proof (intro allI impI)
    fix i assume i: "i < length documents"
    with assms(2) obtain items fields parts where
      "bedrock i (chunk_body (documents ! i)) model = Inr (JObj items)"
      "map_of items ''content'' = Some (JArr (JObj fields # parts))"
      "map_of fields ''text'' = Some (JStr (ss ! i))"
      by blast
    then have "summarize_chunk bedrock model i (documents ! i) = Inr (JStr (ss ! i))"
      by (simp add: summarize_chunk_def first_text_def)
    with i assms(1) show "summarize_chunk bedrock model (0 + i) (documents ! i) = Inr (map JStr ss ! i)"
      by simp
  qed
  with assms(1) have "snd (summarize_loop bedrock model 0 documents [] []) = Some ([] @ map JStr ss)"
    by (intro summarize_loop_ok) simp_all
  then show ?thesis by (simp add: generate_summary_Some)
qed

theorem generate_summary_joins_witness:
  "snd (generate_summary
         (\<lambda>n body model. Inr (JObj [(''content'',
             JArr [JObj [(''type'', JStr ''text''),
                         (''text'', JStr (if n = 0 then ''S1'' else ''S2''))]])]))
         None [''first chunk'', ''second chunk''])
   = Some ''S1 S2''"
  using generate_summary_joins [of "[''S1'', ''S2'']" "[''first chunk'', ''second chunk'']"
      "\<lambda>n body model. Inr (JObj [(''content'',
             JArr [JObj [(''type'', JStr ''text''),
                         (''text'', JStr (if n = 0 then ''S1'' else ''S2''))]])])" None]
  by (simp add: All_less_Suc numeral_2_eq_2)

text \<open>
  Claim C2. If the model call for some chunk \<open>k\<close> raises, \<^verbatim>\<open>generate_summary\<close> returns
  \<^verbatim>\<open>None\<close>, whatever the calls for the other chunks gave: no partial result is
  returned. The witness has three chunks, of which only the third fails.
\<close>
theorem generate_summary_all_or_nothing:
  assumes "k < length documents"
    and "bedrock k (chunk_body (documents ! k)) model = Inl e"
  shows "snd (generate_summary bedrock model documents) = None"
proof -
  from assms(2) have "summarize_chunk bedrock model (0 + k) (documents ! k) = Inl e"
    by (simp add: summarize_chunk_def)
  with assms(1) have "snd (summarize_loop bedrock model 0 documents [] []) = None"
    by (rule summarize_loop_fail)
  then show ?thesis by (rule generate_summary_None)
qed

theorem generate_summary_all_or_nothing_witness:
  "snd (generate_summary
         (\<lambda>n body model.
            if n < 2
            then Inr (JObj [(''content'', JArr [JObj [(''type'', JStr ''text''), (''text'', JStr ''S'')]])])
            else Inl (ClientError ''ThrottlingException''))
         None [''chunk 1'', ''chunk 2'', ''chunk 3''])
   = None"
  using generate_summary_all_or_nothing [of 2 "[''chunk 1'', ''chunk 2'', ''chunk 3'']"
      "\<lambda>n body model.
            if n < 2
            then Inr (JObj [(''content'', JArr [JObj [(''type'', JStr ''text''), (''text'', JStr ''S'')]])])
            else Inl (ClientError ''ThrottlingException'')" None "ClientError ''ThrottlingException''"]
  by simp

text \<open>
  Claim C3. When \<^verbatim>\<open>generate_summary\<close> returns a summary, it is the join of exactly one
  string per chunk, in chunk order, and the \<open>i\<close>-th string is the \<^verbatim>\<open>text\<close> of the first
  content part of the response to the \<open>i\<close>-th chunk.
\<close>
theorem generate_summary_one_per_chunk:
  assumes "snd (generate_summary bedrock model documents) = Some s"
  shows "\<exists>ss. length ss = length documents \<and> s = str_join '' '' ss \<and>
           (\<forall>i<length documents. \<exists>items fields parts.
              bedrock i (chunk_body (documents ! i)) model = Inr (JObj items) \<and>
              map_of items ''content'' = Some (JArr (JObj fields # parts)) \<and>
              map_of fields ''text'' = Some (JStr (ss ! i)))"
proof -
  from assms obtain ss where ss:
    "snd (summarize_loop bedrock model 0 documents [] []) = Some (map JStr ss)"
    "s = str_join '' '' ss"
    using generate_summary_SomeD by blast
  from summarize_loop_None_or_Some [of bedrock model 0 documents "[]" "[]"] ss(1)
  obtain vs where vs: "map JStr ss = vs" "length vs = length documents"
    "\<forall>i<length documents. summarize_chunk bedrock model (0 + i) (documents ! i) = Inr (vs ! i)"
    by auto
  from vs(1,2) have len: "length ss = length documents" by auto
  have "\<forall>i<length documents. \<exists>items fields parts.
              bedrock i (chunk_body (documents ! i)) model = Inr (JObj items) \<and>
              map_of items ''content'' = Some (JArr (JObj fields # parts)) \<and>
              map_of fields ''text'' = Some (JStr (ss ! i))"
  proof (intro allI impI)
    fix i assume i: "i < length documents"
    with vs len have sc: "summarize_chunk bedrock model i (documents ! i) = Inr (JStr (ss ! i))"
      by auto
    then obtain body where body: "bedrock i (chunk_body (documents ! i)) model = Inr body"
      "first_text body = Inr (JStr (ss ! i))"
      by (auto simp: summarize_chunk_def split: sum.splits)
    from body(2) obtain items fields parts where
      "body = JObj items" "map_of items ''content'' = Some (JArr (JObj fields # parts))"
      "map_of fields ''text'' = Some (JStr (ss ! i))"
      unfolding first_text_Inr by blast
    with body(1) show "\<exists>items fields parts.
              bedrock i (chunk_body (documents ! i)) model = Inr (JObj items) \<and>
              map_of items ''content'' = Some (JArr (JObj fields # parts)) \<and>
              map_of fields ''text'' = Some (JStr (ss ! i))"
      by blast
  qed
  with len ss(2) show ?thesis by blast
qed

theorem generate_summary_one_per_chunk_witness:
  "\<exists>ss. length ss = length [''first chunk'', ''second chunk''] \<and> ''S1 S2'' = str_join '' '' ss \<and>
     (\<forall>i<length [''first chunk'', ''second chunk'']. \<exists>items fields parts.
        (if i = 0
         then Inr (JObj [(''content'', JArr [JObj [(''text'', JStr ''S1'')], JObj [(''text'', JStr ''ignored'')]])])
         else Inr (JObj [(''content'', JArr [JObj [(''text'', JStr ''S2'')]])])) = (Inr (JObj items) :: py_exception + json) \<and>
        map_of items ''content'' = Some (JArr (JObj fields # parts)) \<and>
        map_of fields ''text'' = Some (JStr (ss ! i)))"
proof -
  have "snd (generate_summary
          (\<lambda>n body model. if n = 0
             then Inr (JObj [(''content'', JArr [JObj [(''text'', JStr ''S1'')], JObj [(''text'', JStr ''ignored'')]])])
             else Inr (JObj [(''content'', JArr [JObj [(''text'', JStr ''S2'')]])]))
          None [''first chunk'', ''second chunk'']) = Some ''S1 S2''"
    by (simp add: generate_summary_def summarize_chunk_def first_text_def py_join_def)
  from generate_summary_one_per_chunk [OF this] show ?thesis .
qed

text \<open>
  Claim C9. If the response body for some chunk has no \<^verbatim>\<open>content\<close> key, or an empty
  \<^verbatim>\<open>content\<close> list, \<^verbatim>\<open>generate_summary\<close> returns \<^verbatim>\<open>None\<close>. The step for that chunk
  raises (\<^verbatim>\<open>TypeError\<close> from subscripting the first character of the fallback string
  with \<^verbatim>\<open>"text"\<close>, \<^verbatim>\<open>IndexError\<close> on the empty list), so nothing is appended to
  \<^verbatim>\<open>summaries\<close> and the fallback string reaches no summary.
\<close>
theorem missing_content_is_terminal:
  assumes "k < length documents"
    and "bedrock k (chunk_body (documents ! k)) model = Inr (JObj items)"
    and "map_of items ''content'' = None \<or> map_of items ''content'' = Some (JArr [])"
  shows "snd (generate_summary bedrock model documents) = None \<and>
         summarize_chunk bedrock model k (documents ! k) =
           (if map_of items ''content'' = None then Inl TypeError else Inl IndexError)"
proof -
  from assms(2,3) have sc: "summarize_chunk bedrock model k (documents ! k) =
           (if map_of items ''content'' = None then Inl TypeError else Inl IndexError)"
    by (auto simp: summarize_chunk_def first_text_def)
  then obtain e where "summarize_chunk bedrock model (0 + k) (documents ! k) = Inl e"
    by (cases "map_of items ''content'' = None") simp_all
  with assms(1) have "snd (summarize_loop bedrock model 0 documents [] []) = None"
    by (rule summarize_loop_fail)
  then have "snd (generate_summary bedrock model documents) = None"
    by (rule generate_summary_None)
  with sc show ?thesis by simp
qed


theorem missing_content_is_terminal_witness:
  "snd (generate_summary
          (\<lambda>n body model. if n = 0
             then Inr (JObj [(''content'', JArr [JObj [(''text'', JStr ''S1'')]])])
             else Inr (JObj [(''type'', JStr ''message'')]))
          None [''first chunk'', ''second chunk'']) = None \<and>
   summarize_chunk
          (\<lambda>n body model. if n = 0
             then Inr (JObj [(''content'', JArr [JObj [(''text'', JStr ''S1'')]])])
             else Inr (JObj [(''type'', JStr ''message'')]))
          None 1 ''second chunk'' = Inl TypeError"
  using missing_content_is_terminal [of 1 "[''first chunk'', ''second chunk'']"
      "\<lambda>n body model. if n = 0
             then Inr (JObj [(''content'', JArr [JObj [(''text'', JStr ''S1'')]])])
             else Inr (JObj [(''type'', JStr ''message'')])" None "[(''type'', JStr ''message'')]"]
  by simp

section \<open>Properties of the extractors\<close>







section \<open>Properties of process_document\<close>

lemma image_try_no_split: "Split_text a b c d \<notin> set (fst (image_try fs textract path))"
  by (simp add: image_try_def split: sum.splits)

lemma pdf_try_no_split: "Split_text a b c d \<notin> set (fst (pdf_try fs textract path))"
  by (simp add: pdf_try_def split: sum.splits)

lemma extract_text_from_image_no_split:
  "Split_text a b c d \<notin> set (fst (extract_text_from_image fs textract path))"
  using image_try_no_split [of a b c d fs textract path]
  by (cases "image_try fs textract path")
    (auto simp: extract_text_from_image_def split: sum.splits py_exception.splits)

lemma extract_text_from_pdf_no_split:
  "Split_text a b c d \<notin> set (fst (extract_text_from_pdf fs textract path))"
  using pdf_try_no_split [of a b c d fs textract path]
  by (cases "pdf_try fs textract path")
    (auto simp: extract_text_from_pdf_def split: sum.splits py_exception.splits)

text \<open>
  Claim C8. When the extractor chosen by the file type returns the empty string or
  \<^verbatim>\<open>None\<close>, \<^verbatim>\<open>process_document\<close> shows "Failed to extract text from the document." and
  returns the empty list, and the text splitter is not called: no \<open>Split_text\<close> event
  is among the events, and the result is the same for every splitter. The witness is an
  image for which Textract returns no \<^verbatim>\<open>LINE\<close> block.
\<close>
theorem no_text_is_failure:
  assumes "file_path = Some path" and "path \<noteq> []" and "file_type = Some ftype"
    and "ftype \<in> set [''jpg'', ''jpeg'', ''tiff''] \<and>
           extract_text_from_image fs textract path = (evs, extracted)
         \<or> ftype = ''pdf'' \<and> extract_text_from_pdf fs textract path = (evs, extracted)"
    and "extracted = None \<or> extracted = Some []"
  shows "process_document fs textract split_text file_path file_type =
           (evs @ [St_error Failed_to_extract_text], []) \<and>
         (\<forall>a b c d. Split_text a b c d \<notin> set (evs @ [St_error Failed_to_extract_text]))"
proof -
  from assms(4) have ne: "ftype \<noteq> []" by auto
  from assms(5) have f: "\<not> truthy extracted" by (auto simp: truthy_def)
  from assms(4) have sel: "(if ftype \<in> set [''jpg'', ''jpeg'', ''tiff'']
                   then Some (extract_text_from_image fs textract path)
                   else if ftype = ''pdf''
                   then Some (extract_text_from_pdf fs textract path)
                   else None) = Some (evs, extracted)"
    by auto
  have "process_document fs textract split_text file_path file_type =
           (evs @ [St_error Failed_to_extract_text], [])"
    using assms(1,2,3,4) f by (auto simp: process_document_def)
  moreover have "\<forall>a b c d. Split_text a b c d \<notin> set evs"
  proof (intro allI)
    fix a b c d
    from assms(4) show "Split_text a b c d \<notin> set evs"
    proof
      assume "ftype \<in> set [''jpg'', ''jpeg'', ''tiff''] \<and>
           extract_text_from_image fs textract path = (evs, extracted)"
      with extract_text_from_image_no_split [of a b c d fs textract path] show ?thesis by simp
    next
      assume "ftype = ''pdf'' \<and> extract_text_from_pdf fs textract path = (evs, extracted)"
      with extract_text_from_pdf_no_split [of a b c d fs textract path] show ?thesis by simp
    qed
  qed
  ultimately show ?thesis by simp
qed


theorem no_text_is_failure_witness:
  "process_document [''./uploaded_files/scan.jpg'' \<mapsto> File ''bytes'']
     \<lparr> detect_document_text = (\<lambda>data. Inr \<lparr> Blocks = Some [\<lparr> BlockType = Some ''PAGE'', Text = None \<rparr>] \<rparr>),
       analyze_document = (\<lambda>data features. Inl (OtherException ''not called'')) \<rparr>
     (\<lambda>chunk_size seps chunk_overlap text. Inr [text])
     (Some ''./uploaded_files/scan.jpg'') (Some ''jpg'')
   = ([Open_rb ''./uploaded_files/scan.jpg'', Detect_document_text ''bytes'',
       St_error Failed_to_extract_text], [])"
  using no_text_is_failure [of "Some ''./uploaded_files/scan.jpg''" "''./uploaded_files/scan.jpg''"
      "Some ''jpg''" "''jpg''" "[''./uploaded_files/scan.jpg'' \<mapsto> File ''bytes'']"
      "\<lparr> detect_document_text = (\<lambda>data. Inr \<lparr> Blocks = Some [\<lparr> BlockType = Some ''PAGE'', Text = None \<rparr>] \<rparr>),
       analyze_document = (\<lambda>data features. Inl (OtherException ''not called'')) \<rparr>"
      "[Open_rb ''./uploaded_files/scan.jpg'', Detect_document_text ''bytes'']" "Some []"
      "\<lambda>chunk_size seps chunk_overlap text. Inr [text]"]
  by (simp add: extract_text_from_image_def image_try_def open_rb_read_def response_blocks_def)


text \<open>
  Where the splitter is called: on a non-empty extracted text, with chunk size 4000, the
  separator list and overlap 0, and its chunks are returned as they are.
\<close>

lemma process_document_splits:
  assumes "path \<noteq> []"
    and "ftype \<in> set [''jpg'', ''jpeg'', ''tiff''] \<and>
           extract_text_from_image fs textract path = (evs, Some t)
         \<or> ftype = ''pdf'' \<and> extract_text_from_pdf fs textract path = (evs, Some t)"
    and "t \<noteq> []"
    and "split_text 4000 separators 0 t = Inr chunks"
  shows "process_document fs textract split_text (Some path) (Some ftype) =
           (evs @ [Split_text 4000 separators 0 t], chunks)"
  using assms by (auto simp: process_document_def truthy_def)

section \<open>Properties of upload_document\<close>

text \<open>\<^verbatim>\<open>os.path.splitext\<close> cuts the name in two.\<close>

lemma splitext_loop_append: "fst (splitext_loop p i d) @ snd (splitext_loop p i d) = p"
  by (induction p i d rule: splitext_loop.induct) (subst (1 2) splitext_loop.simps, simp)

lemma os_path_splitext_append: "os_path_splitext p = (a, b) \<Longrightarrow> a @ b = p"
  using splitext_loop_append [of p "nat (rfind p (CHR ''/'') + 1)" "nat (rfind p (CHR ''.''))"]
  by (auto simp: os_path_splitext_def Let_def split: if_splits)

text \<open>
  The second upload of \<^verbatim>\<open>scan.pdf\<close>: the first path exists, the file goes to the renamed
  path and the first file stays.
\<close>

lemma upload_document_second_upload:
  "snd (snd (upload_document (\<lambda>path. True)
     [''./uploaded_files'' \<mapsto> Dir,
      ''./uploaded_files/scan.pdf'' \<mapsto> File ''first upload'']
     ''1b9d6bcd-bbfd-4b2d-9b5d-ab8dfbbd4bed''
     (Some \<lparr> name = ''scan.pdf'', getbuffer = ''second upload'' \<rparr>)))
     = Some ''./uploaded_files/scan_1b9d6bcd.pdf'' \<and>
   fst (upload_document (\<lambda>path. True)
     [''./uploaded_files'' \<mapsto> Dir,
      ''./uploaded_files/scan.pdf'' \<mapsto> File ''first upload'']
     ''1b9d6bcd-bbfd-4b2d-9b5d-ab8dfbbd4bed''
     (Some \<lparr> name = ''scan.pdf'', getbuffer = ''second upload'' \<rparr>))
     ''./uploaded_files/scan_1b9d6bcd.pdf'' = Some (File ''second upload'') \<and>
   fst (upload_document (\<lambda>path. True)
     [''./uploaded_files'' \<mapsto> Dir,
      ''./uploaded_files/scan.pdf'' \<mapsto> File ''first upload'']
     ''1b9d6bcd-bbfd-4b2d-9b5d-ab8dfbbd4bed''
     (Some \<lparr> name = ''scan.pdf'', getbuffer = ''second upload'' \<rparr>))
     ''./uploaded_files/scan.pdf'' = Some (File ''first upload'')"
  by code_simp

text \<open>
  A file without a name: the first path is the upload folder itself, which exists, so
  the renamed path is used.
\<close>

lemma upload_document_empty_name:
  "snd (snd (upload_document (\<lambda>path. True) [''./uploaded_files'' \<mapsto> Dir]
     ''1b9d6bcd-bbfd-4b2d-9b5d-ab8dfbbd4bed''
     (Some \<lparr> name = '''', getbuffer = ''bytes'' \<rparr>)))
   = Some ''./uploaded_files/_1b9d6bcd''"
  by code_simp

text \<open>
  Claim C10 does not hold of the code. The third upload of \<^verbatim>\<open>scan.pdf\<close> draws the
  identifier that the second upload drew. The first path exists, so the renamed path is
  taken; it exists too, and nothing checks it before it is opened for writing: the file
  of the second upload is overwritten. Lines 48 and 52 announce a unique identifier, and
  line 49 guards the first path, so the missing check of the renamed path is a slip.
\<close>
theorem upload_document_overwrites_existing_file:
  "os_path_exists
     [''./uploaded_files'' \<mapsto> Dir,
      ''./uploaded_files/scan.pdf'' \<mapsto> File ''first upload'',
      ''./uploaded_files/scan_1b9d6bcd.pdf'' \<mapsto> File ''second upload'']
     (os_path_join ''./uploaded_files'' ''scan.pdf'') \<and>
   [''./uploaded_files'' \<mapsto> Dir,
      ''./uploaded_files/scan.pdf'' \<mapsto> File ''first upload'',
      ''./uploaded_files/scan_1b9d6bcd.pdf'' \<mapsto> File ''second upload'']
     ''./uploaded_files/scan_1b9d6bcd.pdf'' = Some (File ''second upload'') \<and>
   snd (snd (upload_document (\<lambda>path. True)
     [''./uploaded_files'' \<mapsto> Dir,
      ''./uploaded_files/scan.pdf'' \<mapsto> File ''first upload'',
      ''./uploaded_files/scan_1b9d6bcd.pdf'' \<mapsto> File ''second upload'']
     ''1b9d6bcd-bbfd-4b2d-9b5d-ab8dfbbd4bed''
     (Some \<lparr> name = ''scan.pdf'', getbuffer = ''third upload'' \<rparr>)))
     = Some ''./uploaded_files/scan_1b9d6bcd.pdf'' \<and>
   fst (upload_document (\<lambda>path. True)
     [''./uploaded_files'' \<mapsto> Dir,
      ''./uploaded_files/scan.pdf'' \<mapsto> File ''first upload'',
      ''./uploaded_files/scan_1b9d6bcd.pdf'' \<mapsto> File ''second upload'']
     ''1b9d6bcd-bbfd-4b2d-9b5d-ab8dfbbd4bed''
     (Some \<lparr> name = ''scan.pdf'', getbuffer = ''third upload'' \<rparr>))
     ''./uploaded_files/scan_1b9d6bcd.pdf'' = Some (File ''third upload'')"
  by code_simp

section \<open>Properties of the splitter of the specification\<close>

text \<open>Joining the pieces of a split with the separator gives the text back.\<close>

lemma split_at_nonempty: "split_at sep piece rest \<noteq> []"
  by (induction sep piece rest rule: split_at.induct) (subst split_at.simps, simp)

lemma str_join_Cons: "xs \<noteq> [] \<Longrightarrow> str_join sep (x # xs) = x @ sep @ str_join sep xs"
  by (cases xs) simp_all

lemma split_at_join: "sep \<noteq> [] \<Longrightarrow> str_join sep (split_at sep piece rest) = piece @ rest"
proof (induction sep piece rest rule: split_at.induct)
  case (1 sep piece rest)
  show ?case
  proof (cases "rest = []")
    case True
    then show ?thesis by (subst split_at.simps) simp
  next
    case ne: False
    show ?thesis
    proof (cases "take (length sep) rest = sep")
      case True
      with ne "1.prems" have "str_join sep (split_at sep [] (drop (length sep) rest)) = drop (length sep) rest"
        using "1.IH"(1) by simp
      moreover have "split_at sep piece rest = piece # split_at sep [] (drop (length sep) rest)"
        using ne True "1.prems" by (subst split_at.simps) simp
      moreover have "sep @ drop (length sep) rest = rest"
        using True by (metis append_take_drop_id)
      ultimately show ?thesis by (simp add: str_join_Cons split_at_nonempty)
    next
      case False
      with ne "1.prems" have "str_join sep (split_at sep (piece @ [hd rest]) (tl rest)) = (piece @ [hd rest]) @ tl rest"
        using "1.IH"(2) by simp
      moreover have "split_at sep piece rest = split_at sep (piece @ [hd rest]) (tl rest)"
        using ne False by (subst split_at.simps) simp
      ultimately show ?thesis using ne by simp
    qed
  qed
qed

lemma str_join_chars: "str_join [] (map (\<lambda>c. [c]) s) = s"
proof (induction s)
  case Nil
  then show ?case by simp
next
  case (Cons c cs)
  then show ?case by (cases cs) simp_all
qed

lemma split_on_join: "str_join sep (split_on sep text) = text"
  by (simp add: split_on_def str_join_chars split_at_join)


text \<open>Merging keeps every character: the segments of a split concatenate to the text.\<close>

lemma concat_emit_chunk: "concat (map segment_text (emit_chunk r)) = r"
  by (simp add: emit_chunk_def)

lemma merge_pieces_concat:
  assumes "\<And>p. concat (map segment_text (resplit p)) = p"
  shows "concat (map segment_text (merge_pieces m sep resplit run ps)) =
           (case run of None \<Rightarrow> str_join sep ps | Some r \<Rightarrow> str_join sep (r # ps))"
proof (induction ps arbitrary: run)
  case Nil
  then show ?case by (simp add: concat_emit_chunk split: option.splits)
next
  case (Cons p ps)
  show ?case
  proof (cases run)
    case None
    then show ?thesis
      using Cons.IH [of "Some p"] Cons.IH [of None] assms
      by (cases ps) (simp_all add: concat_emit_chunk)
  next
    case (Some r)
    then show ?thesis
      using Cons.IH [of "Some p"] Cons.IH [of None] Cons.IH [of "Some (r @ sep @ p)"] assms
      by (cases ps) (simp_all add: concat_emit_chunk)
  qed
qed

lemma split_segments_concat: "concat (map segment_text (split_segments m seps s)) = s"
proof (induction seps arbitrary: s)
  case Nil
  then show ?case by (simp add: concat_emit_chunk)
next
  case (Cons sep seps)
  then show ?case by (simp add: merge_pieces_concat split_on_join)
qed


text \<open>Only separators of the list are consumed.\<close>

lemma consumed_emit_chunk: "Consumed s \<notin> set (emit_chunk r)"
  by (simp add: emit_chunk_def)

lemma merge_pieces_consumed:
  assumes "\<And>p. Consumed s \<in> set (resplit p) \<Longrightarrow> s \<in> S" and "sep \<in> S"
  shows "Consumed s \<in> set (merge_pieces m sep resplit run ps) \<Longrightarrow> s \<in> S"
proof (induction ps arbitrary: run)
  case Nil
  then show ?case by (simp add: consumed_emit_chunk split: option.splits)
next
  case (Cons p ps)
  show ?case
  proof (cases "length p \<le> m")
    case True
    with Cons.prems Cons.IH assms(2) show ?thesis
      by (auto simp: consumed_emit_chunk split: option.splits if_splits)
  next
    case False
    with Cons.prems Cons.IH assms show ?thesis
      by (auto simp: consumed_emit_chunk split: option.splits if_splits)
  qed
qed

lemma split_segments_consumed:
  "Consumed s \<in> set (split_segments m seps t) \<Longrightarrow> s \<in> set seps"
proof (induction seps arbitrary: t)
  case Nil
  then show ?case by (simp add: consumed_emit_chunk)
next
  case (Cons sep seps)
  have "s \<in> set (sep # seps)"
  proof (rule merge_pieces_consumed)
    fix p assume "Consumed s \<in> set (split_segments m seps p)"
    with Cons.IH show "s \<in> set (sep # seps)" by simp
  next
    show "sep \<in> set (sep # seps)" by simp
  next
    from Cons.prems
    show "Consumed s \<in> set (merge_pieces m sep (\<lambda>piece. split_segments m seps piece) None (split_on sep t))"
      by simp
  qed
  then show ?case .
qed

text \<open>
  Merging never builds a chunk above the maximum size, so the chunks are within it as
  soon as the re-split pieces are; with the empty separator last, they are.
\<close>

lemma chunks_of_append: "chunks_of (a @ b) = chunks_of a @ chunks_of b"
  by (induction a rule: chunks_of.induct) simp_all

lemma chunks_of_emit_chunk: "chunks_of (emit_chunk r) = (if r = [] then [] else [r])"
  by (simp add: emit_chunk_def)

lemma merge_pieces_bound:
  assumes "\<And>p. p \<in> set ps \<Longrightarrow> m < length p \<Longrightarrow> \<forall>c\<in>set (chunks_of (resplit p)). length c \<le> m"
    and "\<And>r. run = Some r \<Longrightarrow> length r \<le> m"
  shows "\<forall>c\<in>set (chunks_of (merge_pieces m sep resplit run ps)). length c \<le> m"
  using assms
proof (induction ps arbitrary: run)
  case Nil
  then show ?case by (simp add: chunks_of_emit_chunk split: option.splits)
next
  case (Cons p ps)
  have rest: "\<And>q. q \<in> set ps \<Longrightarrow> m < length q \<Longrightarrow> \<forall>c\<in>set (chunks_of (resplit q)). length c \<le> m"
    using Cons.prems(1) by (meson list.set_intros(2))
  show ?case
  proof (cases "length p \<le> m")
    case small: True
    show ?thesis
    proof (cases run)
      case None
      with small Cons.IH [of "Some p", OF rest] show ?thesis by simp
    next
      case (Some r)
      with Cons.prems(2) have r: "length r \<le> m" by simp
      show ?thesis
      proof (cases "length r + length sep + length p \<le> m")
        case True
        with small Some Cons.IH [of "Some (r @ sep @ p)", OF rest] show ?thesis by simp
      next
        case False
        with small Some r Cons.IH [of "Some p", OF rest] show ?thesis
          by (simp add: chunks_of_append chunks_of_emit_chunk)
      qed
    qed
  next
    case big: False
    then have "\<forall>c\<in>set (chunks_of (resplit p)). length c \<le> m"
      using Cons.prems(1) [of p] by simp
    moreover have "\<forall>c\<in>set (chunks_of (merge_pieces m sep resplit None ps)). length c \<le> m"
      using Cons.IH [of None, OF rest] by simp
    ultimately show ?thesis
      using big Cons.prems(2)
      by (cases run) (auto simp: chunks_of_append chunks_of_emit_chunk)
  qed
qed

lemma split_on_empty_sep_pieces: "p \<in> set (split_on [] s) \<Longrightarrow> length p = 1"
  by (auto simp: split_on_def)

lemma split_segments_bound:
  assumes "0 < m" and "seps \<noteq> []" and "last seps = []"
  shows "\<forall>c\<in>set (chunks_of (split_segments m seps s)). length c \<le> m"
  using assms(2,3)
proof (induction seps arbitrary: s)
  case Nil
  then show ?case by simp
next
  case (Cons sep seps)
  show ?case
  proof (cases "seps = []")
    case True
    with Cons.prems have "sep = []" by simp
    have "\<forall>c\<in>set (chunks_of (merge_pieces m [] (\<lambda>piece. split_segments m seps piece) None (split_on [] s))). length c \<le> m"
    proof (rule merge_pieces_bound)
      fix p assume "p \<in> set (split_on [] s)" "m < length p"
      with assms(1) split_on_empty_sep_pieces [of p s] have False by simp
      then show "\<forall>c\<in>set (chunks_of (split_segments m seps p)). length c \<le> m" ..
    qed simp
    with \<open>sep = []\<close> show ?thesis by simp
  next
    case False
    with Cons.prems have "last seps = []" by simp
    with Cons.IH False have ih: "\<And>p. \<forall>c\<in>set (chunks_of (split_segments m seps p)). length c \<le> m"
      by simp
    have "\<forall>c\<in>set (chunks_of (merge_pieces m sep (\<lambda>piece. split_segments m seps piece) None (split_on sep s))). length c \<le> m"
      by (rule merge_pieces_bound) (simp_all add: ih)
    then show ?thesis by simp
  qed
qed

text \<open>A text within the maximum size is merged back into one run.\<close>

lemma length_le_str_join: "length x \<le> length (str_join sep (x # xs))"
  by (cases xs) simp_all

lemma str_join_merge: "str_join sep ((a @ sep @ b) # xs) = str_join sep (a # b # xs)"
  by (cases xs) simp_all

lemma merge_pieces_small:
  "length (str_join sep (r # ps)) \<le> m \<Longrightarrow>
   merge_pieces m sep resplit (Some r) ps = emit_chunk (str_join sep (r # ps))"
proof (induction ps arbitrary: r)
  case Nil
  then show ?case by simp
next
  case (Cons p ps)
  from Cons.prems have l: "length r + length sep + length (str_join sep (p # ps)) \<le> m"
    by simp
  with length_le_str_join [of p sep ps] have p: "length p \<le> m" "length r + length sep + length p \<le> m"
    by simp_all
  from Cons.prems have "length (str_join sep ((r @ sep @ p) # ps)) \<le> m"
    by (simp only: str_join_merge)
  from Cons.IH [OF this] p show ?case
    by (simp add: str_join_merge del: str_join.simps)
qed

lemma split_segments_small: "length s \<le> m \<Longrightarrow> split_segments m seps s = emit_chunk s"
proof (cases seps)
  case Nil
  then show ?thesis by simp
next
  case (Cons sep rest)
  assume le: "length s \<le> m"
  show ?thesis
  proof (cases "split_on sep s")
    case Nil
    with split_on_join [of sep s] have "s = []" by simp
    with Nil Cons show ?thesis by (simp add: emit_chunk_def)
  next
    case (Cons p ps)
    with split_on_join [of sep s] have j: "str_join sep (p # ps) = s" by simp
    with le length_le_str_join [of p sep ps] have "length p \<le> m" by simp
    moreover from j le have "merge_pieces m sep (\<lambda>piece. split_segments m rest piece) (Some p) ps = emit_chunk s"
      using merge_pieces_small [of sep p ps m] by simp
    ultimately show ?thesis using Cons \<open>seps = sep # rest\<close> by simp
  qed
qed


text \<open>Two splits computed: with separators, and with none in the text.\<close>

lemma split_example:
  "split_segments 4 [''.'', '' '', ''''] ''ab. cdefghij.k'' =
     [Chunk ''ab'', Consumed ''.'', Consumed '' '', Chunk ''cdef'', Consumed [],
      Chunk ''ghij'', Consumed ''.'', Chunk ''k'']"
  by code_simp

lemma split_example_no_separator:
  "spec_split_text 4 separators ''aaaaaaaaa'' = [''aaaa'', ''aaaa'', ''a'']"
  by code_simp

text \<open>
  Claim C4. For every input text, every chunk of the splitter with chunk size 4000 and
  the separator list of \<^verbatim>\<open>process_document\<close> has at most 4000 characters. The list ends
  with the empty separator, which splits at every character, so no piece is left that
  exceeds the size. Settled against the splitter of the specification.
\<close>
theorem chunk_size_bound:
  "\<forall>c\<in>set (spec_split_text 4000 separators text). length c \<le> 4000"
  using split_segments_bound [of 4000 separators "text"]
  by (simp add: spec_split_text_def separators_def)

theorem chunk_size_bound_witness:
  "list_all (\<lambda>c. length c \<le> 4000) (spec_split_text 4000 separators (replicate 9000 (CHR ''a'')))"
  using chunk_size_bound [of "replicate 9000 (CHR ''a'')"]
  by (simp add: list_all_iff)

text \<open>
  Claim C5. For every text, every separator list and every maximum size, the result of
  the splitter is a sequence of chunks and consumed pieces in which every consumed piece
  is a separator of the list, the chunks returned are the chunks of that sequence, in
  order, and the whole sequence concatenates to the original text: putting the consumed
  separators back between the chunks gives the text, and no other character is lost.
  Settled against the splitter of the specification.
\<close>
theorem split_lossless:
  "concat (map segment_text (split_segments max_size seps text)) = text \<and>
   spec_split_text max_size seps text = chunks_of (split_segments max_size seps text) \<and>
   (\<forall>s. Consumed s \<in> set (split_segments max_size seps text) \<longrightarrow> s \<in> set seps)"
  by (simp add: split_segments_concat spec_split_text_def split_segments_consumed)

theorem split_lossless_witness:
  "concat (map segment_text (split_segments 4 [''.'', '' '', ''''] ''ab. cdefghij.k'')) = ''ab. cdefghij.k'' \<and>
   spec_split_text 4 [''.'', '' '', ''''] ''ab. cdefghij.k'' = [''ab'', ''cdef'', ''ghij'', ''k''] \<and>
   list_all (\<lambda>seg. case seg of Chunk c \<Rightarrow> True | Consumed s \<Rightarrow> s \<in> set [''.'', '' '', ''''])
     (split_segments 4 [''.'', '' '', ''''] ''ab. cdefghij.k'')"
  using split_lossless [of 4 "[''.'', '' '', '''']" "''ab. cdefghij.k''"] split_example
  by simp

text \<open>
  Claim C6. The empty text yields no chunk, and a non-empty text no longer than the
  maximum size yields exactly one chunk, the text itself; this holds for every separator
  list, so for the configured one, and for \<^verbatim>\<open>A. B. C.\<close> (the witness). Settled against
  the splitter of the specification.
\<close>
theorem small_text_one_chunk:
  "spec_split_text max_size seps [] = [] \<and>
   (text \<noteq> [] \<and> length text \<le> max_size \<longrightarrow> spec_split_text max_size seps text = [text])"
  by (simp add: spec_split_text_def split_segments_small emit_chunk_def)

theorem small_text_one_chunk_witness:
  "spec_split_text 4000 separators [] = [] \<and>
   spec_split_text 4000 separators ''A. B. C.'' = [''A. B. C.'']"
  using small_text_one_chunk [of 4000 separators "''A. B. C.''"] by simp

end
